theory Spec2Isabelle
  imports Complex_Main "HOL-Library.AList" "HOL-Library.Multiset"
begin

section \<open>Errors\<close>

text \<open>
  Every \<open>throw\<close> of \<open>index.ts\<close> is a value. \<open>Error\<close> is the plain JavaScript error the
  code raises for an invalid argument, \<open>PerformanceError\<close> the subclass raised by threshold
  verification; both carry their message. \<open>TypeError\<close> is what the runtime raises when a
  property of \<open>undefined\<close> is read, \<open>RangeError\<close> what it raises when the call stack overflows.
\<close>

datatype error = Error string | PerformanceError string | TypeError | RangeError

section \<open>The external environment\<close>

text \<open>
  The unit of work and the hooks are callbacks of the caller. They act on the world outside
  the library (type \<open>'w\<close>) and may throw: a callback maps the world to its outcome and the
  world it leaves behind.

  The parts of the program that are imported and not in the source tree are parameters:
  \<^item> \<open>hrtime\<close> (package \<open>browser-process-hrtime\<close>): the clock. \<open>hrtime w None\<close> is the reading
    \<open>hrtime()\<close> in world \<open>w\<close>, \<open>hrtime w (Some t)\<close> the pair (seconds, nanoseconds) elapsed since
    the earlier reading \<open>t\<close>;
  \<^item> \<open>HEADER\<close> and \<open>FOOTER\<close> (module \<open>./etc\<close>): the first and last line of a report;
  \<^item> \<open>number_toString\<close>: the text JavaScript puts for a number in a template literal.
\<close>

type_synonym 'w callback = "'w \<Rightarrow> (error + unit) \<times> 'w"

record 'w env =
  hrtime :: "'w \<Rightarrow> (nat \<times> nat) option \<Rightarrow> nat \<times> nat"
  HEADER :: string
  FOOTER :: string
  number_toString :: "real \<Rightarrow> string"

section \<open>Double-precision arithmetic\<close>

text \<open>
  A JavaScript number is an IEEE 754 double. Here a number is a real, and every arithmetic
  operation gives the exact result rounded to the nearest double, ties to the even one:
  between \<open>2^e\<close> and \<open>2^(e+1)\<close> the doubles are the multiples of \<open>2^(e-52)\<close>. The doubles are the
  reals that \<open>round_double\<close> leaves as they are. \<open>NaN\<close>, the infinities (and so overflow) and
  the wider spacing of the subnormal numbers are not modelled.
\<close>

definition round_even :: "real \<Rightarrow> int" where
  "round_even y =
     (let f = \<lfloor>y\<rfloor> in
      if y - of_int f < 1 / 2 then f
      else if 1 / 2 < y - of_int f then f + 1
      else if even f then f else f + 1)"

definition ulp :: "real \<Rightarrow> real" where
  "ulp x = 2 powr (of_int \<lfloor>log 2 \<bar>x\<bar>\<rfloor> - 52)"

definition round_double :: "real \<Rightarrow> real" where
  "round_double x = (if x = 0 then 0 else of_int (round_even (x / ulp x)) * ulp x)"

definition plus_double :: "real \<Rightarrow> real \<Rightarrow> real" where
  "plus_double x y = round_double (x + y)"

definition minus_double :: "real \<Rightarrow> real \<Rightarrow> real" where
  "minus_double x y = round_double (x - y)"

definition times_double :: "real \<Rightarrow> real \<Rightarrow> real" where
  "times_double x y = round_double (x * y)"

definition divide_double :: "real \<Rightarrow> real \<Rightarrow> real" where
  "divide_double x y = round_double (x / y)"

definition sqrt_double :: "real \<Rightarrow> real" where
  "sqrt_double x = round_double (sqrt x)"

section \<open>Statistics of the mathjs library\<close>

text \<open>
  Modelled from the spec: the functions \<open>mean\<close>, \<open>min\<close>, \<open>max\<close>, \<open>variance\<close>, \<open>std\<close>, \<open>sqrt\<close> and
  \<open>round\<close> of the package \<open>mathjs\<close>, which is imported and not part of the source tree. They
  are the arithmetic mean, the extrema, the sample variance (the sum of squared deviations
  divided by \<open>n - 1\<close>, and 0 for a single sample), its square root, and rounding to a number
  of decimal places. They compute in double arithmetic: the mean adds the samples from left
  to right and divides the sum by their number, the variance adds the squared deviations
  from that mean in the same order. On an empty array mathjs throws; the program only
  applies these functions to the durations of a Measurement, which are never empty.
\<close>

fun mathjs_mean :: "real list \<Rightarrow> real" where
  "mathjs_mean (x # xs) =
     divide_double (fold (\<lambda>v s. plus_double s v) xs x) (real (length (x # xs)))"

fun mathjs_min :: "real list \<Rightarrow> real" where
  "mathjs_min (x # xs) = fold min xs x"

fun mathjs_max :: "real list \<Rightarrow> real" where
  "mathjs_max (x # xs) = fold max xs x"

fun mathjs_variance :: "real list \<Rightarrow> real" where
  "mathjs_variance (x # xs) =
     (let m = mathjs_mean (x # xs);
          sum = fold (\<lambda>v s. plus_double s (times_double (minus_double v m) (minus_double v m)))
                  (x # xs) 0
      in if length (x # xs) = 1 then 0
         else divide_double sum (real (length (x # xs)) - 1))"

definition mathjs_std :: "real list \<Rightarrow> real" where
  "mathjs_std xs = sqrt_double (mathjs_variance xs)"

definition mathjs_round :: "real \<Rightarrow> nat \<Rightarrow> real" where
  "mathjs_round v places =
     round_double (sgn v * real_of_int \<lfloor>\<bar>v\<bar> * 10 ^ places + 1 / 2\<rfloor> / 10 ^ places)"

section \<open>Measurement\<close>

text \<open>
  \<open>class Measurement\<close>: the constructor throws on an empty list, so a Measurement always
  holds at least one duration. The datatype keeps the first duration apart from the rest,
  which makes every value of the type one that the constructor accepts.
\<close>

datatype Measurement = Measurement real "real list"

fun durations :: "Measurement \<Rightarrow> real list" where
  "durations (Measurement x xs) = x # xs"

fun new_Measurement :: "real list \<Rightarrow> error + Measurement" where
  "new_Measurement [] = Inl (Error ''The list of durations must not be empty'')"
| "new_Measurement (x # xs) = Inr (Measurement x xs)"

definition mean :: "Measurement \<Rightarrow> real" where
  "mean m = mathjs_mean (durations m)"

definition min_Measurement :: "Measurement \<Rightarrow> real" where
  "min_Measurement m = mathjs_min (durations m)"

definition max_Measurement :: "Measurement \<Rightarrow> real" where
  "max_Measurement m = mathjs_max (durations m)"

definition standardDeviation :: "Measurement \<Rightarrow> real" where
  "standardDeviation m = mathjs_std (durations m)"

definition marginOfError :: "Measurement \<Rightarrow> real" where
  "marginOfError m =
     times_double
       (sqrt_double (divide_double (mathjs_variance (durations m)) (real (length (durations m)))))
       (round_double 1.96)"

section \<open>Options\<close>

text \<open>
  \<open>interface MeasureOptions\<close>. A field marked \<open>?\<close> in the source is an option here.
  \<open>iterations\<close> is a JavaScript number used as a loop bound; it is an integer here, so
  that zero and negative counts are inputs of the model.
\<close>

record 'w MeasureOptions =
  iterations :: int
  serial :: bool
  meanUnder :: "real option"
  minUnder :: "real option"
  maxUnder :: "real option"
  marginOfErrorUnder :: "real option"
  standardDeviationUnder :: "real option"
  beforeEach :: "'w callback option"
  afterEach :: "'w callback option"
  verify :: bool

text \<open>\<open>Partial<MeasureOptions>\<close>: every key may be absent (\<open>None\<close>).\<close>

record 'w Partial_MeasureOptions =
  iterations_opt :: "int option"
  serial_opt :: "bool option"
  meanUnder_opt :: "real option"
  minUnder_opt :: "real option"
  maxUnder_opt :: "real option"
  marginOfErrorUnder_opt :: "real option"
  standardDeviationUnder_opt :: "real option"
  beforeEach_opt :: "'w callback option"
  afterEach_opt :: "'w callback option"
  verify_opt :: "bool option"

definition defaultMeasureOptions :: "'w MeasureOptions" where
  "defaultMeasureOptions =
     \<lparr>iterations = 100, serial = True, meanUnder = None, minUnder = None, maxUnder = None,
      marginOfErrorUnder = None, standardDeviationUnder = None, beforeEach = None,
      afterEach = None, verify = True\<rparr>"

text \<open>The empty options object \<open>{}\<close>.\<close>

definition no_options :: "'w Partial_MeasureOptions" where
  "no_options =
     \<lparr>iterations_opt = None, serial_opt = None, meanUnder_opt = None, minUnder_opt = None,
      maxUnder_opt = None, marginOfErrorUnder_opt = None, standardDeviationUnder_opt = None,
      beforeEach_opt = None, afterEach_opt = None, verify_opt = None\<rparr>"

text \<open>
  The object spread \<open>{ ...d, ...p }\<close> of options \<open>p\<close> over full options \<open>d\<close>: a key present in
  \<open>p\<close> wins, an absent one keeps the value of \<open>d\<close>.
\<close>

definition override :: "'a \<Rightarrow> 'a option \<Rightarrow> 'a" where
  "override d p = (case p of None \<Rightarrow> d | Some v \<Rightarrow> v)"

definition override_opt :: "'a option \<Rightarrow> 'a option \<Rightarrow> 'a option" where
  "override_opt d p = (case p of None \<Rightarrow> d | Some v \<Rightarrow> Some v)"

definition spread :: "'w MeasureOptions \<Rightarrow> 'w Partial_MeasureOptions \<Rightarrow> 'w MeasureOptions" where
  "spread d p =
     \<lparr>iterations = override (iterations d) (iterations_opt p),
      serial = override (serial d) (serial_opt p),
      meanUnder = override_opt (meanUnder d) (meanUnder_opt p),
      minUnder = override_opt (minUnder d) (minUnder_opt p),
      maxUnder = override_opt (maxUnder d) (maxUnder_opt p),
      marginOfErrorUnder = override_opt (marginOfErrorUnder d) (marginOfErrorUnder_opt p),
      standardDeviationUnder =
        override_opt (standardDeviationUnder d) (standardDeviationUnder_opt p),
      beforeEach = override_opt (beforeEach d) (beforeEach_opt p),
      afterEach = override_opt (afterEach d) (afterEach_opt p),
      verify = override (verify d) (verify_opt p)\<rparr>"

text \<open>Full options passed where \<open>Partial<MeasureOptions>\<close> is expected: every key present.\<close>

definition as_partial :: "'w MeasureOptions \<Rightarrow> 'w Partial_MeasureOptions" where
  "as_partial m =
     \<lparr>iterations_opt = Some (iterations m), serial_opt = Some (serial m),
      meanUnder_opt = meanUnder m, minUnder_opt = minUnder m, maxUnder_opt = maxUnder m,
      marginOfErrorUnder_opt = marginOfErrorUnder m,
      standardDeviationUnder_opt = standardDeviationUnder m,
      beforeEach_opt = beforeEach m, afterEach_opt = afterEach m,
      verify_opt = Some (verify m)\<rparr>"

section \<open>Threshold verification\<close>

text \<open>
  \<open>verifyMeasurement\<close> is five blocks of one shape,
  \<^verbatim>\<open>if (options.xUnder !== undefined) { if (measurement.x > options.xUnder) { throw ... } }\<close>,
  which differ in the statistic, the threshold and the first words of the message.
  \<open>check_under\<close> is one such block.
\<close>

definition exceeded_message :: "'w env \<Rightarrow> string \<Rightarrow> real \<Rightarrow> real \<Rightarrow> string" where
  "exceeded_message env label v t =
     label @ '' time of '' @ number_toString env v @ '' ms exceeded threshold of ''
       @ number_toString env t @ '' ms''"

definition check_under :: "'w env \<Rightarrow> string \<Rightarrow> real \<Rightarrow> real option \<Rightarrow> error + unit" where
  "check_under env label v threshold =
     (case threshold of
        None \<Rightarrow> Inr ()
      | Some t \<Rightarrow> if v > t then Inl (PerformanceError (exceeded_message env label v t))
                  else Inr ())"

definition verifyMeasurement :: "'w env \<Rightarrow> Measurement \<Rightarrow> 'w MeasureOptions \<Rightarrow> error + unit" where
  "verifyMeasurement env measurement options =
     (if \<not> verify options then Inr ()
      else case check_under env ''Mean'' (mean measurement) (meanUnder options) of
        Inl e \<Rightarrow> Inl e
      | Inr _ \<Rightarrow>
      (case check_under env ''Minimum'' (min_Measurement measurement) (minUnder options) of
        Inl e \<Rightarrow> Inl e
      | Inr _ \<Rightarrow>
      (case check_under env ''Maximum'' (max_Measurement measurement) (maxUnder options) of
        Inl e \<Rightarrow> Inl e
      | Inr _ \<Rightarrow>
      (case check_under env ''Margin of error'' (marginOfError measurement)
              (marginOfErrorUnder options) of
        Inl e \<Rightarrow> Inl e
      | Inr _ \<Rightarrow>
      check_under env ''Standard deviation'' (standardDeviation measurement)
        (standardDeviationUnder options)))))"

text \<open>
  The contract in the words of the specification: the checks in their fixed order, each a
  statistic's name, its value and its threshold; the first one whose threshold is defined
  and strictly below the value decides.
\<close>

definition threshold_checks ::
  "Measurement \<Rightarrow> 'w MeasureOptions \<Rightarrow> (string \<times> real \<times> real option) list" where
  "threshold_checks m options =
     [(''Mean'', mean m, meanUnder options),
      (''Minimum'', min_Measurement m, minUnder options),
      (''Maximum'', max_Measurement m, maxUnder options),
      (''Margin of error'', marginOfError m, marginOfErrorUnder options),
      (''Standard deviation'', standardDeviation m, standardDeviationUnder options)]"

fun is_exceeded :: "string \<times> real \<times> real option \<Rightarrow> bool" where
  "is_exceeded (label, v, None) = False"
| "is_exceeded (label, v, Some t) = (t < v)"

definition first_exceeded ::
  "Measurement \<Rightarrow> 'w MeasureOptions \<Rightarrow> (string \<times> real \<times> real) option" where
  "first_exceeded m options =
     (case List.find is_exceeded (threshold_checks m options) of
        Some (label, v, Some t) \<Rightarrow> Some (label, v, t)
      | _ \<Rightarrow> None)"

section \<open>The execution engine\<close>

text \<open>
  \<open>maybePromise\<close> calls the callback and, when it returns a promise, waits for it: in both
  cases the callback has completed (or thrown) when \<open>maybePromise\<close> settles.
\<close>

definition maybePromise :: "'w callback \<Rightarrow> 'w callback" where
  "maybePromise fn w = fn w"

text \<open>
  The loop of \<open>measure\<close> pushes one closure per iteration onto \<open>calls\<close>. All closures have the
  same body, so a closure is represented by how far its execution has come. Its body is cut
  at the three \<open>await\<close>s:
  \<^item> \<open>Start\<close>: pushed, not yet called;
  \<^item> \<open>Awaiting_beforeEach\<close>: suspended at \<open>await maybePromise(mergedOptions.beforeEach)\<close>;
  \<^item> \<open>Awaiting_fn startTime\<close>: suspended at \<open>await maybePromise(fn)\<close>, holding \<open>startTime\<close>;
  \<^item> \<open>Awaiting_afterEach\<close>: suspended at \<open>await maybePromise(mergedOptions.afterEach)\<close>;
  \<^item> \<open>Settled\<close>: returned.
  The state the closures share is the array \<open>durations\<close> (\<open>ds\<close> below) and the world.
\<close>

datatype task = Start | Awaiting_beforeEach | Awaiting_fn "nat \<times> nat" | Awaiting_afterEach | Settled

function build_calls :: "int \<Rightarrow> int \<Rightarrow> task list \<Rightarrow> task list" where
  "build_calls i n calls = (if i < n then build_calls (i + 1) n (calls @ [Start]) else calls)"
  by pat_completeness auto
termination
  by (relation "measure (\<lambda>(i, n, calls). nat (n - i))") auto

text \<open>
  From \<open>const startTime = hrtime()\<close> to the \<open>await\<close> of the unit of work.
\<close>

definition time_fn ::
  "'w env \<Rightarrow> 'w callback \<Rightarrow> real list \<times> 'w \<Rightarrow> (error + task) \<times> real list \<times> 'w" where
  "time_fn env fn st =
     (case st of (ds, w) \<Rightarrow>
        let startTime = hrtime env w None in
        (case maybePromise fn w of
           (Inl e, w') \<Rightarrow> (Inl e, ds, w')
         | (Inr _, w') \<Rightarrow> (Inr (Awaiting_fn startTime), ds, w')))"

text \<open>
  One stretch of the closure's body, from where it stands to its next \<open>await\<close> (or its
  return). A callback that throws makes the closure's promise reject with that error.
\<close>

fun step ::
  "'w env \<Rightarrow> 'w MeasureOptions \<Rightarrow> 'w callback \<Rightarrow> task \<Rightarrow> real list \<times> 'w
     \<Rightarrow> (error + task) \<times> real list \<times> 'w" where
  "step env mergedOptions fn Start (ds, w) =
     (case beforeEach mergedOptions of
        Some b \<Rightarrow>
          (case maybePromise b w of
             (Inl e, w') \<Rightarrow> (Inl e, ds, w')
           | (Inr _, w') \<Rightarrow> (Inr Awaiting_beforeEach, ds, w'))
      | None \<Rightarrow> time_fn env fn (ds, w))"
| "step env mergedOptions fn Awaiting_beforeEach (ds, w) = time_fn env fn (ds, w)"
| "step env mergedOptions fn (Awaiting_fn startTime) (ds, w) =
     (case hrtime env w (Some startTime) of (durationSec, durationNano) \<Rightarrow>
        let ds' = ds @ [plus_double (times_double (real durationSec) 1000)
                              (divide_double (real durationNano) 1000000)] in
        (case afterEach mergedOptions of
           Some a \<Rightarrow>
             (case maybePromise a w of
                (Inl e, w') \<Rightarrow> (Inl e, ds', w')
              | (Inr _, w') \<Rightarrow> (Inr Awaiting_afterEach, ds', w'))
         | None \<Rightarrow> (Inr Settled, ds', w)))"
| "step env mergedOptions fn Awaiting_afterEach (ds, w) = (Inr Settled, ds, w)"
| "step env mergedOptions fn Settled (ds, w) = (Inr Settled, ds, w)"

text \<open>How many stretches a closure has at most left.\<close>

fun remaining :: "task \<Rightarrow> nat" where
  "remaining Start = 4"
| "remaining Awaiting_beforeEach = 3"
| "remaining (Awaiting_fn startTime) = 2"
| "remaining Awaiting_afterEach = 1"
| "remaining Settled = 0"

lemma time_fn_remaining:
  "time_fn env fn st = (Inr t, st') \<Longrightarrow> remaining t = 2"
  by (auto simp: time_fn_def Let_def split: prod.splits sum.splits)

lemma step_remaining:
  "t \<noteq> Settled \<Longrightarrow> step env mergedOptions fn t st = (Inr t', st') \<Longrightarrow> remaining t' < remaining t"
  by (cases t; cases st)
     (auto simp: Let_def split: option.splits prod.splits sum.splits dest: time_fn_remaining)

text \<open>
  \<open>await call()\<close>: the closure runs from its call to its return with nothing in between.
\<close>

function await_call ::
  "'w env \<Rightarrow> 'w MeasureOptions \<Rightarrow> 'w callback \<Rightarrow> task \<Rightarrow> real list \<times> 'w
     \<Rightarrow> (error + unit) \<times> real list \<times> 'w" where
  "await_call env mergedOptions fn t st =
     (if t = Settled then (Inr (), st)
      else case step env mergedOptions fn t st of
        (Inl e, st') \<Rightarrow> (Inl e, st')
      | (Inr t', st') \<Rightarrow> await_call env mergedOptions fn t' st')"
  by pat_completeness auto
termination
  by (relation "measure (\<lambda>(env, mergedOptions, fn, t, st). remaining t)")
     (auto intro: step_remaining [OF _ sym])

text \<open>\<open>for (const call of calls) { await call(); }\<close>\<close>

fun run_serial ::
  "'w env \<Rightarrow> 'w MeasureOptions \<Rightarrow> 'w callback \<Rightarrow> task list \<Rightarrow> real list \<times> 'w
     \<Rightarrow> (error + unit) \<times> real list \<times> 'w" where
  "run_serial env mergedOptions fn [] st = (Inr (), st)"
| "run_serial env mergedOptions fn (call # calls) st =
     (case await_call env mergedOptions fn call st of
        (Inl e, st') \<Rightarrow> (Inl e, st')
      | (Inr _, st') \<Rightarrow> run_serial env mergedOptions fn calls st')"

text \<open>
  \<open>await Promise.all(calls.map(x => x()))\<close>. First every closure is called, in order, and
  runs to its first \<open>await\<close>. Then the runtime resumes the suspended closures one stretch at
  a time until all have returned. Which suspended closure goes next depends on when the
  promises of the callbacks resolve, which the program does not control: the list \<open>sched\<close>
  decides it, its head picking among the closures that have not returned (the first of
  them once the list is used up). The first rejection rejects \<open>Promise.all\<close>, and with it
  \<open>measure\<close>: the run ends there with the failure and the state reached; what the other
  closures still do afterwards is no longer part of the call.
\<close>

fun launch ::
  "'w env \<Rightarrow> 'w MeasureOptions \<Rightarrow> 'w callback \<Rightarrow> task list \<Rightarrow> real list \<times> 'w
     \<Rightarrow> (error + task list) \<times> real list \<times> 'w" where
  "launch env mergedOptions fn [] st = (Inr [], st)"
| "launch env mergedOptions fn (call # calls) st =
     (case step env mergedOptions fn call st of
        (Inl e, st') \<Rightarrow> (Inl e, st')
      | (Inr t, st') \<Rightarrow>
          (case launch env mergedOptions fn calls st' of
             (Inl e, st'') \<Rightarrow> (Inl e, st'')
           | (Inr ts, st'') \<Rightarrow> (Inr (t # ts), st'')))"

definition pending :: "task list \<Rightarrow> nat list" where
  "pending tasks = filter (\<lambda>i. tasks ! i \<noteq> Settled) [0..<length tasks]"

definition pick :: "nat list \<Rightarrow> nat list \<Rightarrow> nat" where
  "pick sched js = js ! ((case sched of [] \<Rightarrow> 0 | c # _ \<Rightarrow> c) mod length js)"

lemma pick_pending:
  assumes "pending tasks \<noteq> []"
  shows "pick sched (pending tasks) < length tasks"
    and "tasks ! pick sched (pending tasks) \<noteq> Settled"
proof -
  let ?js = "pending tasks"
  have "pick sched ?js \<in> set ?js"
    using assms by (simp add: pick_def)
  then show "pick sched ?js < length tasks" and "tasks ! pick sched ?js \<noteq> Settled"
    by (auto simp: pending_def)
qed

lemma sum_list_remaining_update:
  assumes "i < length tasks" and "remaining t' < remaining (tasks ! i)"
  shows "sum_list (map remaining (tasks[i := t'])) < sum_list (map remaining tasks)"
proof -
  have "sum_list (map remaining (tasks[i := t'])) + remaining (tasks ! i)
          = sum_list (map remaining tasks) + remaining t'"
    using assms(1)
  proof (induction tasks arbitrary: i)
    case Nil
    then show ?case by simp
  next
    case (Cons a tasks)
    then show ?case by (cases i) auto
  qed
  with assms(2) show ?thesis by linarith
qed

function run_tasks ::
  "'w env \<Rightarrow> 'w MeasureOptions \<Rightarrow> 'w callback \<Rightarrow> nat list \<Rightarrow> task list \<Rightarrow> real list \<times> 'w
     \<Rightarrow> (error + unit) \<times> real list \<times> 'w" where
  "run_tasks env mergedOptions fn sched tasks st =
     (if pending tasks = [] then (Inr (), st)
      else let i = pick sched (pending tasks) in
        (case step env mergedOptions fn (tasks ! i) st of
           (Inl e, st') \<Rightarrow> (Inl e, st')
         | (Inr t', st') \<Rightarrow> run_tasks env mergedOptions fn (tl sched) (tasks[i := t']) st'))"
  by pat_completeness auto
termination
proof (relation "measure (\<lambda>(env, mergedOptions, fn, sched, tasks, st). sum_list (map remaining tasks))")
  show "wf (measure (\<lambda>(env :: 'w env, mergedOptions :: 'w MeasureOptions, fn :: 'w callback,
             sched :: nat list, tasks, st :: real list \<times> 'w). sum_list (map remaining tasks)))"
    by simp
next
  fix env :: "'w env" and mergedOptions :: "'w MeasureOptions" and fn :: "'w callback"
    and sched :: "nat list" and tasks :: "task list" and st :: "real list \<times> 'w"
    and i x y t' st'
  assume pend: "pending tasks \<noteq> []"
    and i: "i = pick sched (pending tasks)"
    and x: "(x, y) = step env mergedOptions fn (tasks ! i) st"
    and t': "x = Inr t'"
  have "i < length tasks" and "tasks ! i \<noteq> Settled"
    using pick_pending [OF pend] i by simp_all
  moreover have "remaining t' < remaining (tasks ! i)"
    using step_remaining [OF \<open>tasks ! i \<noteq> Settled\<close>] x t' by metis
  ultimately show "((env, mergedOptions, fn, tl sched, tasks[i := t'], y),
                    (env, mergedOptions, fn, sched, tasks, st))
      \<in> measure (\<lambda>(env, mergedOptions, fn, sched, tasks, st). sum_list (map remaining tasks))"
    by (simp add: sum_list_remaining_update)
qed

definition run_overlapped ::
  "'w env \<Rightarrow> 'w MeasureOptions \<Rightarrow> 'w callback \<Rightarrow> nat list \<Rightarrow> task list \<Rightarrow> real list \<times> 'w
     \<Rightarrow> (error + unit) \<times> real list \<times> 'w" where
  "run_overlapped env mergedOptions fn sched calls st =
     (case launch env mergedOptions fn calls st of
        (Inl e, st') \<Rightarrow> (Inl e, st')
      | (Inr tasks, st') \<Rightarrow> run_tasks env mergedOptions fn sched tasks st')"

text \<open>
  \<open>measure\<close>: the result of the call and the world it leaves.
\<close>

definition measure_call ::
  "'w env \<Rightarrow> nat list \<Rightarrow> 'w callback \<Rightarrow> 'w Partial_MeasureOptions \<Rightarrow> 'w
     \<Rightarrow> (error + Measurement) \<times> 'w" where
  "measure_call env sched fn options w =
     (let mergedOptions = spread defaultMeasureOptions options;
          calls = build_calls 0 (iterations mergedOptions) []
      in case (if serial mergedOptions
               then run_serial env mergedOptions fn calls ([], w)
               else run_overlapped env mergedOptions fn sched calls ([], w)) of
           (Inl e, ds, w') \<Rightarrow> (Inl e, w')
         | (Inr _, ds, w') \<Rightarrow>
             (case new_Measurement ds of
                Inl e \<Rightarrow> (Inl e, w')
              | Inr measurement \<Rightarrow>
                  (case verifyMeasurement env measurement mergedOptions of
                     Inl e \<Rightarrow> (Inl e, w')
                   | Inr _ \<Rightarrow> (Inr measurement, w'))))"

section \<open>The aggregation tree as a JavaScript object\<close>

text \<open>
  \<open>interface BenchmarkData\<close>: an object whose keys are descriptions and whose values hold the
  durations recorded under that description and the nested data. The object is the list of
  its own properties in the order they were created.
\<close>

datatype node = Node (node_durations: "real list") (children: "(string \<times> node) list")

type_synonym BenchmarkData = "(string \<times> node) list"

text \<open>
  \<open>data\<close> and every \<open>children\<close> are object literals \<open>{}\<close>, so they inherit from
  \<open>Object.prototype\<close>. These are its property names (ECMAScript, with Annex B).
\<close>

definition Object_prototype_keys :: "string list" where
  "Object_prototype_keys =
     [''constructor'', ''hasOwnProperty'', ''isPrototypeOf'', ''propertyIsEnumerable'',
      ''toLocaleString'', ''toString'', ''valueOf'', ''__proto__'', ''__defineGetter__'',
      ''__defineSetter__'', ''__lookupGetter__'', ''__lookupSetter__'']"

text \<open>
  \<open>key in data\<close> holds for an own property and for an inherited one. \<open>data[key]\<close> is the
  node of an own property (\<open>map_of data key\<close>); for a key that is only inherited it is a
  function or object of the runtime, which has neither \<open>durations\<close> nor \<open>children\<close>.
  \<open>data[key] = v\<close> replaces the value of an own property where it stands and creates a
  new property after the existing ones (\<open>AList.update\<close>).
\<close>

definition has_property :: "string \<Rightarrow> BenchmarkData \<Rightarrow> bool" where
  "has_property key tree = (map_of tree key \<noteq> None \<or> key \<in> set Object_prototype_keys)"

text \<open>
  \<open>Object.entries\<close> and \<open>Object.keys\<close> enumerate the own properties: first the keys that are
  array indices (the canonical decimal numerals below \<open>2^32 - 1\<close>) in ascending numeric
  order, then the other keys in the order of their creation.
\<close>

definition is_digit :: "char \<Rightarrow> bool" where
  "is_digit c = (48 \<le> (of_char c :: nat) \<and> (of_char c :: nat) \<le> 57)"

definition index_value :: "string \<Rightarrow> nat" where
  "index_value s = foldl (\<lambda>n c. 10 * n + (of_char c - 48)) 0 s"

definition is_array_index :: "string \<Rightarrow> bool" where
  "is_array_index s =
     (s \<noteq> [] \<and> list_all is_digit s \<and> (s = ''0'' \<or> hd s \<noteq> CHR ''0'')
      \<and> index_value s < 2 ^ 32 - 1)"

definition Object_entries :: "(string \<times> 'v) list \<Rightarrow> (string \<times> 'v) list" where
  "Object_entries obj =
     sort_key (\<lambda>p. index_value (fst p)) (filter (\<lambda>p. is_array_index (fst p)) obj)
       @ filter (\<lambda>p. \<not> is_array_index (fst p)) obj"

definition Object_keys :: "(string \<times> 'v) list \<Rightarrow> string list" where
  "Object_keys obj = map fst (Object_entries obj)"

section \<open>The store\<close>

text \<open>
  \<open>class Benchmark\<close> has the tree \<open>data\<close> and the emitter \<open>events\<close>. The emitter comes from
  the package \<open>events\<close>, which is not part of the source tree; it is modelled by the
  listeners registered with \<open>on\<close> for the event \<open>record\<close>, in the order of registration.
  A listener is a closure: besides its two arguments, the description and the measurement,
  it can read the tree of the store as it is when the event is emitted. It acts on the
  world and may throw.
\<close>

type_synonym 'w listener =
  "string list \<Rightarrow> Measurement \<Rightarrow> BenchmarkData \<Rightarrow> 'w \<Rightarrow> (error + unit) \<times> 'w"

record 'w Benchmark =
  data :: BenchmarkData
  events :: "'w listener list"

text \<open>\<open>new Benchmark()\<close>\<close>

definition new_Benchmark :: "'w Benchmark" where
  "new_Benchmark = \<lparr>data = [], events = []\<rparr>"

text \<open>
  \<open>events.emit("record", description, measurement)\<close> calls the listeners one after the
  other; a listener that throws ends the call with its error. It returns whether there
  was a listener.
\<close>

fun call_listeners ::
  "'w listener list \<Rightarrow> string list \<Rightarrow> Measurement \<Rightarrow> BenchmarkData \<Rightarrow> 'w \<Rightarrow> (error + unit) \<times> 'w" where
  "call_listeners [] description measurement tree w = (Inr (), w)"
| "call_listeners (l # ls) description measurement tree w =
     (case l description measurement tree w of
        (Inl e, w') \<Rightarrow> (Inl e, w')
      | (Inr _, w') \<Rightarrow> call_listeners ls description measurement tree w')"

definition emit ::
  "'w Benchmark \<Rightarrow> string list \<Rightarrow> Measurement \<Rightarrow> 'w \<Rightarrow> (error + bool) \<times> 'w" where
  "emit b description measurement w =
     (case call_listeners (events b) description measurement (data b) w of
        (Inl e, w') \<Rightarrow> (Inl e, w')
      | (Inr _, w') \<Rightarrow> (Inr (events b \<noteq> []), w'))"

text \<open>
  \<open>addBenchmarkDurations\<close> changes \<open>data\<close> in place: it returns the object as it is left,
  also when it throws. With a first category that \<open>data\<close> only inherits, no node is created,
  \<open>data[categories[0]].durations\<close> and \<open>data[categories[0]].children\<close> are \<open>undefined\<close>, and
  reading \<open>concat\<close> of the one, or applying \<open>in\<close> to the other in the recursive call, throws a
  \<open>TypeError\<close>. The function is private and is called with a non-empty \<open>categories\<close> only
  (\<open>incorporate\<close> checks it); on an empty one its recursion would not end.
\<close>

fun addBenchmarkDurations ::
  "BenchmarkData \<Rightarrow> string list \<Rightarrow> real list \<Rightarrow> (error + unit) \<times> BenchmarkData" where
  "addBenchmarkDurations tree [] ds = (Inl RangeError, tree)"
| "addBenchmarkDurations tree (c # cs) ds =
     (let data1 = (if \<not> has_property c tree then AList.update c (Node [] []) tree else tree)
      in case map_of data1 c of
           None \<Rightarrow> (Inl TypeError, data1)
         | Some info \<Rightarrow>
             if length (c # cs) = 1
             then (Inr (), AList.update c (Node (node_durations info @ ds) (children info)) data1)
             else (case addBenchmarkDurations (children info) cs ds of
                     (r, children') \<Rightarrow>
                       (r, AList.update c (Node (node_durations info) children') data1)))"

definition incorporate ::
  "'w Benchmark \<Rightarrow> string list \<Rightarrow> Measurement \<Rightarrow> (error + unit) \<times> 'w Benchmark" where
  "incorporate b description measurement =
     (if length description = 0
      then (Inl (Error ''The description must not be empty''), b)
      else case addBenchmarkDurations (data b) description (durations measurement) of
             (r, data') \<Rightarrow> (r, b\<lparr>data := data'\<rparr>))"

text \<open>
  The arguments of \<open>record\<close>: its two overloads, told apart by \<open>typeof a === "function"\<close>.
  A description is a string or an array of strings; \<open>options\<close> may be left out.
\<close>

datatype description = Str string | Arr "string list"

datatype 'w record_args =
  Without_description "'w callback" "'w Partial_MeasureOptions option"
| With_description description "'w callback" "'w Partial_MeasureOptions option"

fun description_length :: "description \<Rightarrow> nat" where
  "description_length (Str s) = length s"
| "description_length (Arr xs) = length xs"

text \<open>\<open>b || {}\<close>\<close>

definition or_empty :: "'w Partial_MeasureOptions option \<Rightarrow> 'w Partial_MeasureOptions" where
  "or_empty opts = (case opts of None \<Rightarrow> no_options | Some c \<Rightarrow> c)"

text \<open>
  \<open>Benchmark.record\<close>: the result of the call, the store and the world it leaves.
\<close>

definition record_call ::
  "'w env \<Rightarrow> nat list \<Rightarrow> 'w record_args \<Rightarrow> 'w Benchmark \<times> 'w
     \<Rightarrow> (error + Measurement) \<times> 'w Benchmark \<times> 'w" where
  "record_call env sched args st =
     (case st of (b, w) \<Rightarrow>
      (case (case args of
               Without_description a b' \<Rightarrow> (Arr [], False, a, or_empty b')
             | With_description a b' c \<Rightarrow> (a, True, b', or_empty c)) of
         (description, descriptionSpecified, fn, options) \<Rightarrow>
           let mergedOptions = spread defaultMeasureOptions options in
           if descriptionSpecified \<and> description_length description = 0
           then (Inl (Error ''The description must not be empty''), b, w)
           else
             let description' = (case description of Str s \<Rightarrow> [s] | Arr xs \<Rightarrow> xs) in
             (case measure_call env sched fn (as_partial (mergedOptions\<lparr>verify := False\<rparr>)) w of
                (Inl e, w1) \<Rightarrow> (Inl e, b, w1)
              | (Inr measurement, w1) \<Rightarrow>
                  (case (if length description' > 0
                         then incorporate b description' measurement
                         else (Inr (), b)) of
                     (Inl e, b1) \<Rightarrow> (Inl e, b1, w1)
                   | (Inr _, b1) \<Rightarrow>
                       (case emit b1 description' measurement w1 of
                          (Inl e, w2) \<Rightarrow> (Inl e, b1, w2)
                        | (Inr _, w2) \<Rightarrow>
                            (case verifyMeasurement env measurement
                                    (mergedOptions\<lparr>verify := True\<rparr>) of
                               Inl e \<Rightarrow> (Inl e, b1, w2)
                             | Inr _ \<Rightarrow> (Inr measurement, b1, w2)))))))"

section \<open>The report\<close>

text \<open>\<open>round(value)\<close> with its default of 5 places.\<close>

definition round_places :: "real \<Rightarrow> real" where
  "round_places v = mathjs_round v 5"

text \<open>\<open>s.repeat(n)\<close> and \<open>lines.join(sep)\<close>\<close>

definition repeat :: "string \<Rightarrow> nat \<Rightarrow> string" where
  "repeat s n = concat (replicate n s)"

fun join :: "string \<Rightarrow> string list \<Rightarrow> string" where
  "join sep [] = []"
| "join sep [x] = x"
| "join sep (x # y # ys) = x @ sep @ join sep (y # ys)"

definition newline :: string where
  "newline = [CHR 0x0A]"

text \<open>The size of a tree, for the termination of the traversal.\<close>

fun weight :: "node \<Rightarrow> nat" where
  "weight (Node ds ch) = sum_list (map (\<lambda>p. Suc (weight (snd p))) ch)"

definition level_weight :: "BenchmarkData \<Rightarrow> nat" where
  "level_weight level = sum_list (map (\<lambda>p. Suc (weight (snd p))) level)"

lemma mset_Object_entries: "mset (Object_entries obj) = mset obj"
  by (simp add: Object_entries_def)

lemma level_weight_Object_entries: "level_weight (Object_entries level) = level_weight level"
proof -
  have "level_weight l = sum_mset (image_mset (\<lambda>p. Suc (weight (snd p))) (mset l))" for l
    unfolding level_weight_def by (metis mset_map sum_mset_sum_list)
  then show ?thesis by (simp add: mset_Object_entries)
qed

lemma level_weight_Cons:
  "level_weight ((description, info) # rest) = Suc (level_weight (children info)) + level_weight rest"
  by (cases info) (simp add: level_weight_def)

text \<open>
  \<open>reportLevel\<close>: the loop over \<open>Object.entries(level)\<close> is \<open>report_entries\<close>, whose last
  argument is the array \<open>lines\<close> built so far. \<open>new Measurement\<close> can throw, so the result is
  an error or the lines.
\<close>

function reportLevel :: "'w env \<Rightarrow> BenchmarkData \<Rightarrow> nat \<Rightarrow> error + string list"
  and report_entries ::
    "'w env \<Rightarrow> (string \<times> node) list \<Rightarrow> nat \<Rightarrow> string list \<Rightarrow> error + string list" where
  "reportLevel env level depth = report_entries env (Object_entries level) depth []"
| "report_entries env [] depth lines = Inr lines"
| "report_entries env ((description, info) # rest) depth lines =
     (let showMeasurement = length (node_durations info) > 0;
          showChildren = length (Object_keys (children info)) > 0;
          lines1 = lines @ [repeat ''  '' depth @ description @ '':'']
      in case (if showMeasurement
               then (case new_Measurement (node_durations info) of
                       Inl e \<Rightarrow> Inl e
                     | Inr measurement \<Rightarrow>
                         let mean' = round_places (mean measurement);
                             moe = round_places (marginOfError measurement);
                             iterations' = length (durations measurement)
                         in Inr (lines1 @
                              [repeat ''  '' (depth + 1) @ number_toString env mean'
                                 @ '' ms (+/- '' @ number_toString env moe @ '' ms) from ''
                                 @ number_toString env (real iterations') @ '' iterations'']))
               else Inr lines1) of
           Inl e \<Rightarrow> Inl e
         | Inr lines2 \<Rightarrow>
             let lines3 = (if showMeasurement \<and> showChildren then lines2 @ [''''] else lines2)
             in (case (if showChildren
                       then (case reportLevel env (children info) (depth + 1) of
                               Inl e \<Rightarrow> Inl e
                             | Inr sub \<Rightarrow> Inr (lines3 @ sub))
                       else Inr lines3) of
                   Inl e \<Rightarrow> Inl e
                 | Inr lines4 \<Rightarrow> report_entries env rest depth lines4))"
  by pat_completeness auto
termination
  by (relation "measure (\<lambda>x. case x of
        Inl (env, level, depth) \<Rightarrow> 2 * level_weight level + 1
      | Inr (env, entries, depth, lines) \<Rightarrow> 2 * level_weight entries)")
    (simp_all add: level_weight_Object_entries level_weight_Cons)

text \<open>
  \<open>report\<close>, a method of the store: the text and the store it leaves.
\<close>

definition report :: "'w env \<Rightarrow> 'w Benchmark \<Rightarrow> (error + string) \<times> 'w Benchmark" where
  "report env b =
     (case reportLevel env (data b) 0 of
        Inl e \<Rightarrow> (Inl e, b)
      | Inr lines \<Rightarrow>
          if length lines = 0 then (Inr '''', b)
          else (case reportLevel env (data b) 0 of
                  Inl e \<Rightarrow> (Inl e, b)
                | Inr lines' \<Rightarrow> (Inr (join newline ([HEADER env] @ lines' @ [FOOTER env])), b)))"

section \<open>Concrete inputs\<close>

text \<open>
  A world for the examples: a clock in nanoseconds and the log that a listener writes.
  The unit of work \<open>tick\<close> takes one millisecond; \<open>failing\<close> throws; \<open>logging_listener\<close>
  appends what it is called with, and the tree it sees, to the log.
\<close>

type_synonym example_world = "nat \<times> (string list \<times> real list \<times> BenchmarkData) list"

definition example_env :: "example_world env" where
  "example_env =
     \<lparr>hrtime = (\<lambda>w t. case t of None \<Rightarrow> (0, fst w) | Some (s, n) \<Rightarrow> (0, fst w - n)),
      HEADER = ''- Performance -'', FOOTER = ''- - -'', number_toString = (\<lambda>x. ''#'')\<rparr>"

definition tick :: "example_world callback" where
  "tick w = (Inr (), (fst w + 1000000, snd w))"

definition failing :: "example_world callback" where
  "failing w = (Inl (Error ''failed''), w)"

definition logging_listener :: "example_world listener" where
  "logging_listener description measurement tree w =
     (Inr (), (fst w, snd w @ [(description, durations measurement, tree)]))"

definition logging_Benchmark :: "example_world Benchmark" where
  "logging_Benchmark = \<lparr>data = [], events = [logging_listener]\<rparr>"

text \<open>The store after recording one duration under \<open>"2"\<close> and then one under \<open>"1"\<close>.\<close>

definition recorded_2_then_1 :: "example_world Benchmark" where
  "recorded_2_then_1 =
     fst (snd (record_call example_env []
       (With_description (Str ''1'') tick (Some (no_options\<lparr>iterations_opt := Some 1\<rparr>)))
       (snd (record_call example_env []
          (With_description (Str ''2'') tick (Some (no_options\<lparr>iterations_opt := Some 1\<rparr>)))
          (new_Benchmark, (0, []))))))"


section \<open>Properties of the execution engine\<close>

text \<open>
  A callback completes without failure when it throws in no world. \<open>owed\<close> counts the
  samples a closure has still to push.
\<close>

definition completes :: "'w callback \<Rightarrow> bool" where
  "completes c = (\<forall>w. fst (c w) = Inr ())"

definition hook_completes :: "'w callback option \<Rightarrow> bool" where
  "hook_completes h = (case h of None \<Rightarrow> True | Some c \<Rightarrow> completes c)"

fun owed :: "task \<Rightarrow> nat" where
  "owed Start = 1"
| "owed Awaiting_beforeEach = 1"
| "owed (Awaiting_fn startTime) = 1"
| "owed Awaiting_afterEach = 0"
| "owed Settled = 0"

declare build_calls.simps [simp del] await_call.simps [simp del] run_tasks.simps [simp del]

lemma round_double_0: "round_double 0 = 0"
  by (simp add: round_double_def)




lemma round_even_of_int: "round_even (of_int j) = j"
  by (simp add: round_even_def)




lemma round_double_of_int:
  assumes "\<bar>real_of_int k\<bar> < 2 ^ 53"
  shows "round_double (of_int k) = of_int k"
proof (cases "k = 0")
  case True
  then show ?thesis by (simp add: round_double_0)
next
  case False
  define e where "e = \<lfloor>log 2 \<bar>real_of_int k\<bar>\<rfloor>"
  have k1: "1 \<le> \<bar>real_of_int k\<bar>" using False by (simp add: abs_if)
  then have "0 \<le> log 2 \<bar>real_of_int k\<bar>" by simp
  then have e0: "0 \<le> e" by (simp add: e_def)
  have "log 2 \<bar>real_of_int k\<bar> < 53"
    using assms k1 by (simp add: log_less_iff powr_realpow [symmetric])
  then have e52: "e \<le> 52" unfolding e_def by linarith
  define n where "n = nat (52 - e)"
  have u: "ulp (of_int k) = 1 / 2 ^ n"
  proof -
    have "real_of_int e - 52 = - real n" using e52 by (simp add: n_def)
    then have "ulp (of_int k) = 2 powr (- real n)" by (simp add: ulp_def e_def)
    then show ?thesis by (simp add: powr_minus powr_realpow divide_inverse)
  qed
  have "real_of_int k / ulp (of_int k) = of_int (k * 2 ^ n)" by (simp add: u)
  then have "round_even (real_of_int k / ulp (of_int k)) = k * 2 ^ n"
    by (simp only: round_even_of_int)
  then show ?thesis using False by (simp add: round_double_def u)
qed

lemma round_double_1: "round_double 1 = 1"
  using round_double_of_int [of 1] by simp

lemma round_double_numeral:
  "(numeral n :: real) < 9007199254740992 \<Longrightarrow> round_double (numeral n) = numeral n"
  using round_double_of_int [of "numeral n"] by simp

lemmas double_simps = plus_double_def minus_double_def times_double_def divide_double_def
  round_double_0 round_double_1 round_double_numeral

lemma build_calls_eq: "build_calls i n calls = calls @ replicate (nat (n - i)) Start"
proof (induction i n calls rule: build_calls.induct)
  case (1 i n calls)
  show ?case
  proof (cases "i < n")
    case True
    then have "nat (n - i) = Suc (nat (n - (i + 1)))" by simp
    with True 1 show ?thesis
      by (subst build_calls.simps) (simp add: replicate_app_Cons_same)
  next
    case False
    then show ?thesis by (subst build_calls.simps) simp
  qed
qed

lemma completes_run: "completes c \<Longrightarrow> \<exists>w'. c w = (Inr (), w')"
  by (metis completes_def prod.collapse)

lemma time_fn_ok:
  assumes "completes fn"
  shows "\<exists>startTime w'. time_fn env fn (ds, w) = (Inr (Awaiting_fn startTime), ds, w')"
  using completes_run [OF assms, of w] by (auto simp: time_fn_def maybePromise_def Let_def)

lemma step_ok:
  assumes "completes fn" "hook_completes (beforeEach mo)" "hook_completes (afterEach mo)"
  shows "\<exists>t' ds' w'. step env mo fn t (ds, w) = (Inr t', ds', w')
           \<and> length ds' + owed t' = length ds + owed t"
proof (cases t)
  case Start
  show ?thesis
  proof (cases "beforeEach mo")
    case None
    with Start time_fn_ok [OF assms(1), of env ds w] show ?thesis by auto
  next
    case (Some b)
    with assms(2) have "completes b" by (simp add: hook_completes_def)
    from completes_run [OF this, of w] Start Some show ?thesis
      by (auto simp: maybePromise_def)
  qed
next
  case Awaiting_beforeEach
  with time_fn_ok [OF assms(1), of env ds w] show ?thesis by auto
next
  case (Awaiting_fn startTime)
  show ?thesis
  proof (cases "afterEach mo")
    case None
    with Awaiting_fn show ?thesis by (auto simp: Let_def split: prod.splits)
  next
    case (Some a)
    with assms(3) have "completes a" by (simp add: hook_completes_def)
    from completes_run [OF this, of w] Awaiting_fn Some show ?thesis
      by (auto simp: maybePromise_def Let_def split: prod.splits)
  qed
next
  case Awaiting_afterEach
  then show ?thesis by simp
next
  case Settled
  then show ?thesis by simp
qed

lemma await_call_ok:
  assumes "completes fn" "hook_completes (beforeEach mo)" "hook_completes (afterEach mo)"
  shows "\<exists>ds' w'. await_call env mo fn t (ds, w) = (Inr (), ds', w')
           \<and> length ds' = length ds + owed t"
proof (induction "remaining t" arbitrary: t ds w rule: less_induct)
  case less
  show ?case
  proof (cases "t = Settled")
    case True
    then show ?thesis by (subst await_call.simps) simp
  next
    case False
    from step_ok [OF assms, of env t ds w] obtain t' ds' w' where
      s: "step env mo fn t (ds, w) = (Inr t', ds', w')"
      and l: "length ds' + owed t' = length ds + owed t" by blast
    from step_remaining [OF False s] have "remaining t' < remaining t" .
    from less [OF this, of ds' w'] obtain ds'' w'' where
      "await_call env mo fn t' (ds', w') = (Inr (), ds'', w'')"
      "length ds'' = length ds' + owed t'" by blast
    with s l False show ?thesis by (subst await_call.simps) simp
  qed
qed

lemma run_serial_ok:
  assumes "completes fn" "hook_completes (beforeEach mo)" "hook_completes (afterEach mo)"
  shows "\<exists>ds' w'. run_serial env mo fn calls (ds, w) = (Inr (), ds', w')
           \<and> length ds' = length ds + sum_list (map owed calls)"
proof (induction calls arbitrary: ds w)
  case Nil
  then show ?case by simp
next
  case (Cons c calls)
  from await_call_ok [OF assms, of env c ds w] obtain ds' w' where
    a: "await_call env mo fn c (ds, w) = (Inr (), ds', w')" "length ds' = length ds + owed c"
    by blast
  from Cons [of ds' w'] a show ?case by auto
qed

lemma launch_ok:
  assumes "completes fn" "hook_completes (beforeEach mo)" "hook_completes (afterEach mo)"
  shows "\<exists>ts ds' w'. launch env mo fn calls (ds, w) = (Inr ts, ds', w')
           \<and> length ds' + sum_list (map owed ts) = length ds + sum_list (map owed calls)"
proof (induction calls arbitrary: ds w)
  case Nil
  then show ?case by simp
next
  case (Cons c calls)
  from step_ok [OF assms, of env c ds w] obtain t' ds' w' where
    s: "step env mo fn c (ds, w) = (Inr t', ds', w')"
    "length ds' + owed t' = length ds + owed c" by blast
  from Cons [of ds' w'] obtain ts ds'' w'' where
    "launch env mo fn calls (ds', w') = (Inr ts, ds'', w'')"
    "length ds'' + sum_list (map owed ts) = length ds' + sum_list (map owed calls)" by blast
  with s show ?case by auto
qed

lemma sum_list_owed_update:
  assumes "i < length tasks"
  shows "sum_list (map owed (tasks[i := t'])) + owed (tasks ! i)
          = sum_list (map owed tasks) + owed t'"
  using assms
proof (induction tasks arbitrary: i)
  case Nil
  then show ?case by simp
next
  case (Cons a tasks)
  then show ?case by (cases i) auto
qed

lemma pending_Nil_owed: "pending tasks = [] \<Longrightarrow> sum_list (map owed tasks) = 0"
proof -
  assume "pending tasks = []"
  then have "\<forall>i < length tasks. tasks ! i = Settled"
    by (auto simp: pending_def filter_empty_conv)
  then have "\<forall>t \<in> set tasks. owed t = 0"
    by (auto simp: in_set_conv_nth)
  then show ?thesis by (simp add: sum_list_eq_0_iff)
qed

lemma run_tasks_ok:
  assumes "completes fn" "hook_completes (beforeEach mo)" "hook_completes (afterEach mo)"
  shows "\<exists>ds' w'. run_tasks env mo fn sched tasks (ds, w) = (Inr (), ds', w')
           \<and> length ds' = length ds + sum_list (map owed tasks)"
proof (induction "sum_list (map remaining tasks)" arbitrary: sched tasks ds w rule: less_induct)
  case less
  show ?case
  proof (cases "pending tasks = []")
    case True
    then show ?thesis
      by (subst run_tasks.simps) (simp add: pending_Nil_owed)
  next
    case False
    let ?i = "pick sched (pending tasks)"
    have i: "?i < length tasks" "tasks ! ?i \<noteq> Settled"
      using pick_pending [OF False] by simp_all
    from step_ok [OF assms, of env "tasks ! ?i" ds w] obtain t' ds' w' where
      s: "step env mo fn (tasks ! ?i) (ds, w) = (Inr t', ds', w')"
      and l: "length ds' + owed t' = length ds + owed (tasks ! ?i)" by blast
    have "remaining t' < remaining (tasks ! ?i)"
      using step_remaining [OF i(2) s] .
    then have "sum_list (map remaining (tasks[?i := t'])) < sum_list (map remaining tasks)"
      using i(1) by (rule sum_list_remaining_update [rotated])
    from less [OF this, of "tl sched" ds' w'] obtain ds'' w'' where
      r: "run_tasks env mo fn (tl sched) (tasks[?i := t']) (ds', w') = (Inr (), ds'', w'')"
      and l': "length ds'' = length ds' + sum_list (map owed (tasks[?i := t']))" by blast
    from sum_list_owed_update [OF i(1), of t'] l l'
    have "length ds'' = length ds + sum_list (map owed tasks)" by linarith
    with False s r show ?thesis
      by (subst run_tasks.simps) (simp add: Let_def)
  qed
qed

lemma run_overlapped_ok:
  assumes "completes fn" "hook_completes (beforeEach mo)" "hook_completes (afterEach mo)"
  shows "\<exists>ds' w'. run_overlapped env mo fn sched calls (ds, w) = (Inr (), ds', w')
           \<and> length ds' = length ds + sum_list (map owed calls)"
proof -
  from launch_ok [OF assms, of env calls ds w] obtain ts ds' w' where
    la: "launch env mo fn calls (ds, w) = (Inr ts, ds', w')"
    "length ds' + sum_list (map owed ts) = length ds + sum_list (map owed calls)" by blast
  from run_tasks_ok [OF assms, of env sched ts ds' w'] obtain ds'' w'' where
    "run_tasks env mo fn sched ts (ds', w') = (Inr (), ds'', w'')"
    "length ds'' = length ds' + sum_list (map owed ts)" by blast
  with la show ?thesis by (auto simp: run_overlapped_def)
qed


lemma new_Measurement_durations:
  "ds \<noteq> [] \<Longrightarrow> \<exists>m. new_Measurement ds = Inr m \<and> durations m = ds"
  by (cases ds) auto

lemma measure_call_collects:
  assumes "0 < N" and "iterations_opt options = Some N"
    and "completes fn"
    and "hook_completes (beforeEach_opt options)"
    and "hook_completes (afterEach_opt options)"
  shows "\<exists>m w'. length (durations m) = nat N \<and>
           measure_call env sched fn options w =
             (case verifyMeasurement env m (spread defaultMeasureOptions options) of
                Inl e \<Rightarrow> (Inl e, w')
              | Inr _ \<Rightarrow> (Inr m, w'))"
proof -
  let ?mo = "spread defaultMeasureOptions options"
  let ?calls = "build_calls 0 (iterations ?mo) []"
  have it: "iterations ?mo = N"
    using assms(2) by (simp add: spread_def override_def)
  have hooks: "hook_completes (beforeEach ?mo)" "hook_completes (afterEach ?mo)"
    using assms(4,5)
    by (auto simp: spread_def defaultMeasureOptions_def override_opt_def hook_completes_def
        split: option.splits)
  have owed: "sum_list (map owed ?calls) = nat N"
    by (simp add: it build_calls_eq sum_list_replicate)
  let ?run = "if serial ?mo then run_serial env ?mo fn ?calls ([], w)
              else run_overlapped env ?mo fn sched ?calls ([], w)"
  have "\<exists>ds' w'. ?run = (Inr (), ds', w') \<and> length ds' = nat N"
    using run_serial_ok [OF assms(3) hooks, of env ?calls "[]" w]
      run_overlapped_ok [OF assms(3) hooks, of env sched ?calls "[]" w] owed
    by auto
  then obtain ds' w' where run: "?run = (Inr (), ds', w')" and len: "length ds' = nat N"
    by blast
  from len assms(1) have "ds' \<noteq> []" by auto
  from new_Measurement_durations [OF this] obtain m where
    m: "new_Measurement ds' = Inr m" "durations m = ds'" by blast
  have "measure_call env sched fn options w =
          (case verifyMeasurement env m ?mo of Inl e \<Rightarrow> (Inl e, w') | Inr _ \<Rightarrow> (Inr m, w'))"
    unfolding measure_call_def Let_def run using m(1) by simp
  with m(2) len show ?thesis by auto
qed

lemma spread_serial_opt:
  "spread d (options\<lparr>serial_opt := Some v\<rparr>) = (spread d options)\<lparr>serial := v\<rparr>"
  by (simp add: spread_def override_def)

lemma verifyMeasurement_serial:
  "verifyMeasurement env m (mo\<lparr>serial := v\<rparr>) = verifyMeasurement env m mo"
  by (simp add: verifyMeasurement_def split: sum.splits)

text \<open>
  Claim C5, as stated, fails: the unit of work \<open>tick\<close> completes without failure and the
  iteration count is 2, yet \<open>measure\<close> returns no Measurement, once because the mean of the
  two samples is above the threshold \<open>meanUnder\<close>, once because the hook \<open>beforeEach\<close> throws.
\<close>

theorem measure_call_without_measurement:
  "measure_call example_env [] tick
     (no_options\<lparr>iterations_opt := Some 2, meanUnder_opt := Some 0\<rparr>) (0, [])
     = (Inl (PerformanceError ''Mean time of # ms exceeded threshold of # ms''), (2000000, []))
   \<and> measure_call example_env [] tick
       (no_options\<lparr>iterations_opt := Some 2, beforeEach_opt := Some failing\<rparr>) (0, [])
     = (Inl (Error ''failed''), (0, []))"
  by (simp add: measure_call_def spread_def defaultMeasureOptions_def no_options_def
      override_def override_opt_def time_fn_def maybePromise_def Let_def
      verifyMeasurement_def check_under_def exceeded_message_def example_env_def tick_def
      failing_def mean_def double_simps build_calls.simps await_call.simps)

text \<open>
  Claim C5, amended. For a positive iteration count \<open>N\<close>, a unit of work and hooks that
  complete without failure, \<open>measure\<close> collects exactly \<open>N\<close> durations into a Measurement, with
  \<open>serial\<close> true and with \<open>serial\<close> false, whatever the order \<open>sched\<close> in which the overlapped
  iterations are resumed. It returns that Measurement, unless threshold verification
  rejects it: then it fails with the error of the verification.
\<close>

theorem measure_call_sample_count:
  assumes "0 < N" and "iterations_opt options = Some N"
    and "completes fn"
    and "hook_completes (beforeEach_opt options)"
    and "hook_completes (afterEach_opt options)"
  shows "(\<exists>m w'. length (durations m) = nat N
            \<and> measure_call env sched fn (options\<lparr>serial_opt := Some True\<rparr>) w
                = (case verifyMeasurement env m (spread defaultMeasureOptions options) of
                     Inl e \<Rightarrow> (Inl e, w')
                   | Inr _ \<Rightarrow> (Inr m, w')))
       \<and> (\<exists>m w'. length (durations m) = nat N
            \<and> measure_call env sched fn (options\<lparr>serial_opt := Some False\<rparr>) w
                = (case verifyMeasurement env m (spread defaultMeasureOptions options) of
                     Inl e \<Rightarrow> (Inl e, w')
                   | Inr _ \<Rightarrow> (Inr m, w')))"
proof -
  have "\<exists>m w'. length (durations m) = nat N
            \<and> measure_call env sched fn (options\<lparr>serial_opt := Some b\<rparr>) w
                = (case verifyMeasurement env m (spread defaultMeasureOptions options) of
                     Inl e \<Rightarrow> (Inl e, w')
                   | Inr _ \<Rightarrow> (Inr m, w'))" for b
    using measure_call_collects [of N "options\<lparr>serial_opt := Some b\<rparr>" fn env sched w]
      assms
    by (simp add: spread_serial_opt verifyMeasurement_serial)
  then show ?thesis by blast
qed

theorem measure_call_sample_count_witness:
  "measure_call example_env [2, 0, 1] tick
     (no_options\<lparr>iterations_opt := Some 3, meanUnder_opt := Some 5, afterEach_opt := Some tick,
        serial_opt := Some True\<rparr>) (0, [])
     = (Inr (Measurement 1 [1, 1]), (6000000, []))
   \<and> measure_call example_env [2, 0, 1] tick
       (no_options\<lparr>iterations_opt := Some 3, meanUnder_opt := Some 5, afterEach_opt := Some tick,
          serial_opt := Some False\<rparr>) (0, [])
     = (Inr (Measurement 1 [4, 4]), (6000000, []))"
  using measure_call_sample_count [of 3
      "no_options\<lparr>iterations_opt := Some 3, meanUnder_opt := Some 5,
         afterEach_opt := Some tick\<rparr>" tick example_env "[2, 0, 1]" "(0, [])"]
  by (simp add: completes_def hook_completes_def measure_call_def spread_def
      defaultMeasureOptions_def no_options_def override_def override_opt_def
      run_overlapped_def time_fn_def maybePromise_def pending_def pick_def Let_def
      verifyMeasurement_def check_under_def example_env_def tick_def mean_def double_simps
      build_calls.simps await_call.simps run_tasks.simps)

lemma measure_call_no_iterations:
  assumes "iterations_opt options = Some n" and "n \<le> 0"
  shows "measure_call env sched fn options w
           = (Inl (Error ''The list of durations must not be empty''), w)"
proof -
  let ?mo = "spread defaultMeasureOptions options"
  have "build_calls 0 (iterations ?mo) [] = []"
    using assms by (simp add: spread_def override_def build_calls_eq)
  then show ?thesis
    by (simp add: measure_call_def Let_def run_overlapped_def run_tasks.simps pending_def)
qed

text \<open>
  Claim C8. The constructor of Measurement rejects the empty list with the error
  \<open>The list of durations must not be empty\<close>, and so \<open>measure\<close> with \<open>iterations = 0\<close> fails
  with that error, in the serial and in the overlapped mode, without having run anything:
  the world is as before.
\<close>

theorem empty_measurement_rejected:
  assumes "iterations_opt options = Some 0"
  shows "new_Measurement [] = Inl (Error ''The list of durations must not be empty'')
       \<and> measure_call env sched fn options w
           = (Inl (Error ''The list of durations must not be empty''), w)"
  using measure_call_no_iterations [OF assms, of env sched fn w] by simp

theorem empty_measurement_rejected_witness:
  "new_Measurement [] = Inl (Error ''The list of durations must not be empty'')
   \<and> measure_call example_env [] tick
        (no_options\<lparr>iterations_opt := Some 0, serial_opt := Some False\<rparr>) (0, [])
       = (Inl (Error ''The list of durations must not be empty''), (0, []))"
  using empty_measurement_rejected [of
      "no_options\<lparr>iterations_opt := Some 0, serial_opt := Some False\<rparr>"
      example_env "[]" tick "(0, [])"]
  by (simp add: no_options_def)

text \<open>
  Claim C1. With \<open>verify\<close> false, verification succeeds whatever the thresholds. Otherwise it
  goes through the checks in the order mean, minimum, maximum, margin of error, standard
  deviation; the first check whose threshold is defined and strictly below the statistic
  makes it fail with a \<open>PerformanceError\<close> whose message gives the name of the statistic, its
  value and the threshold; when there is no such check it succeeds.
\<close>

theorem verifyMeasurement_first_exceeded:
  "verifyMeasurement env m options =
     (if \<not> verify options then Inr ()
      else case first_exceeded m options of
        None \<Rightarrow> Inr ()
      | Some (label, v, t) \<Rightarrow>
          Inl (PerformanceError
                (label @ '' time of '' @ number_toString env v @ '' ms exceeded threshold of ''
                   @ number_toString env t @ '' ms'')))"
  by (auto simp: verifyMeasurement_def first_exceeded_def threshold_checks_def check_under_def
      exceeded_message_def split: option.splits)














section \<open>Properties of the store\<close>

text \<open>
  What \<open>record\<close> makes of its arguments: the path (a string is a path of one segment, no
  description is the empty path), the unit of work, the options, and whether the check of
  the description lets the call through.
\<close>

fun description_path :: "description \<Rightarrow> string list" where
  "description_path (Str s) = [s]"
| "description_path (Arr xs) = xs"

fun args_path :: "'w record_args \<Rightarrow> string list" where
  "args_path (Without_description fn opts) = []"
| "args_path (With_description d fn opts) = description_path d"

fun args_fn :: "'w record_args \<Rightarrow> 'w callback" where
  "args_fn (Without_description fn opts) = fn"
| "args_fn (With_description d fn opts) = fn"

fun args_options :: "'w record_args \<Rightarrow> 'w Partial_MeasureOptions" where
  "args_options (Without_description fn opts) = or_empty opts"
| "args_options (With_description d fn opts) = or_empty opts"

fun args_accepted :: "'w record_args \<Rightarrow> bool" where
  "args_accepted (Without_description fn opts) = True"
| "args_accepted (With_description d fn opts) = (description_length d \<noteq> 0)"

text \<open>
  The log that \<open>logging_listener\<close> has written when a call of \<open>record\<close> is over.
\<close>

definition log_after ::
  "(error + Measurement) \<times> example_world Benchmark \<times> example_world
     \<Rightarrow> (string list \<times> real list \<times> BenchmarkData) list" where
  "log_after r = snd (snd (snd r))"

text \<open>
  The durations recorded directly under a path: those of the node the path leads to, and
  none when there is no such node.
\<close>

fun durations_at :: "BenchmarkData \<Rightarrow> string list \<Rightarrow> real list" where
  "durations_at tree [] = []"
| "durations_at tree (c # cs) =
     (case map_of tree c of
        None \<Rightarrow> []
      | Some info \<Rightarrow> if cs = [] then node_durations info else durations_at (children info) cs)"

lemma spread_as_partial: "spread defaultMeasureOptions (as_partial m) = m"
  by (cases m)
     (simp add: spread_def as_partial_def override_def override_opt_def defaultMeasureOptions_def
       split: option.splits)

lemma spread_verify_opt:
  "spread d (options\<lparr>verify_opt := Some v\<rparr>) = (spread d options)\<lparr>verify := v\<rparr>"
  by (simp add: spread_def override_def)

lemma measure_call_spread:
  "spread defaultMeasureOptions o1 = spread defaultMeasureOptions o2
     \<Longrightarrow> measure_call env sched fn o1 w = measure_call env sched fn o2 w"
  by (simp add: measure_call_def)

lemma measure_call_verify_false:
  "measure_call env sched fn (as_partial ((spread defaultMeasureOptions options)\<lparr>verify := False\<rparr>)) w
     = measure_call env sched fn (options\<lparr>verify_opt := Some False\<rparr>) w"
  by (rule measure_call_spread) (simp add: spread_as_partial spread_verify_opt)

lemmas js_simps = has_property_def Object_prototype_keys_def

lemmas run_simps = record_call_def or_empty_def measure_call_def spread_def
  defaultMeasureOptions_def no_options_def override_def override_opt_def as_partial_def
  run_overlapped_def time_fn_def maybePromise_def pending_def pick_def Let_def
  verifyMeasurement_def check_under_def exceeded_message_def incorporate_def emit_def
  example_env_def tick_def logging_listener_def logging_Benchmark_def

text \<open>
  Claim C10. \<open>record\<close> with the empty string as description fails with the error
  \<open>The description must not be empty\<close> and leaves the store and the world as they were:
  nothing has run. A non-empty string is the path of that one segment.
\<close>

theorem record_empty_string_description:
  "record_call env sched (With_description (Str '''') fn opts) (b, w)
     = (Inl (Error ''The description must not be empty''), b, w)
   \<and> (s \<noteq> '''' \<longrightarrow>
        record_call env sched (With_description (Str s) fn opts) (b, w)
          = record_call env sched (With_description (Arr [s]) fn opts) (b, w))"
  by (simp add: record_call_def)

theorem record_empty_string_description_witness:
  "record_call example_env [] (With_description (Str '''') tick None) (logging_Benchmark, (0, []))
     = (Inl (Error ''The description must not be empty''), logging_Benchmark, (0, []))
   \<and> record_call example_env [] (With_description (Str ''a'') tick None)
         (logging_Benchmark, (0, []))
     = record_call example_env [] (With_description (Arr [''a'']) tick None)
         (logging_Benchmark, (0, []))"
  using record_empty_string_description [of example_env "[]" tick None logging_Benchmark
      "(0, [])" "''a''"]
  by simp

text \<open>
  Claim C6. \<open>record\<close> without a description runs \<open>measure\<close> on the caller's options with
  \<open>verify\<close> set to false. A failure of that run is the failure of the call. Otherwise the
  measurement is emitted with the empty path, then verified against the caller's thresholds
  (with \<open>verify\<close> true), and returned unless the listeners or the verification fail. In
  every case the store, and so its tree, is as before.
\<close>

theorem record_without_description:
  "record_call env sched (Without_description fn opts) (b, w) =
     (case measure_call env sched fn ((or_empty opts)\<lparr>verify_opt := Some False\<rparr>) w of
        (Inl e, w1) \<Rightarrow> (Inl e, b, w1)
      | (Inr m, w1) \<Rightarrow>
          (case emit b [] m w1 of
             (Inl e, w2) \<Rightarrow> (Inl e, b, w2)
           | (Inr _, w2) \<Rightarrow>
               (case verifyMeasurement env m
                       ((spread defaultMeasureOptions (or_empty opts))\<lparr>verify := True\<rparr>) of
                  Inl e \<Rightarrow> (Inl e, b, w2)
                | Inr _ \<Rightarrow> (Inr m, b, w2))))
   \<and> fst (snd (record_call env sched (Without_description fn opts) (b, w))) = b"
  by (simp add: record_call_def measure_call_verify_false Let_def
      split: prod.splits sum.splits)

text \<open>
  Claim C2, as stated, fails: a call with the empty string as description is rejected
  before anything runs, and the listener has logged no event.
\<close>

theorem record_empty_description_emits_nothing:
  "\<not> (\<exists>entry. log_after (record_call example_env [] (With_description (Str '''') tick None)
                          (logging_Benchmark, (0, []))) = [entry])"
  by (simp add: log_after_def record_call_def)

text \<open>
  Claim C2, amended. When the arguments pass the check of the description, the run of
  \<open>measure\<close> returns a measurement \<open>m\<close>, and the merge of \<open>m\<close> into the tree (made when the path
  is not empty) succeeds and leaves the store \<open>b1\<close>, then \<open>record\<close> emits the event exactly once:
  on the store \<open>b1\<close>, hence after the merge, and in the world \<open>w1\<close> that \<open>measure\<close> left.
  Threshold verification comes after it and decides the result only: the store and the
  world at the end are those after the emission, whether verification fails or not.
\<close>

theorem record_emits_once:
  assumes "args_accepted args"
    and "measure_call env sched (args_fn args) ((args_options args)\<lparr>verify_opt := Some False\<rparr>) w
           = (Inr m, w1)"
    and "(if args_path args = [] then (Inr (), b) else incorporate b (args_path args) m)
           = (Inr (), b1)"
  shows "record_call env sched args (b, w) =
           (case emit b1 (args_path args) m w1 of
              (Inl e, w2) \<Rightarrow> (Inl e, b1, w2)
            | (Inr _, w2) \<Rightarrow>
                (case verifyMeasurement env m
                        ((spread defaultMeasureOptions (args_options args))\<lparr>verify := True\<rparr>) of
                   Inl e \<Rightarrow> (Inl e, b1, w2)
                 | Inr _ \<Rightarrow> (Inr m, b1, w2)))"
proof (cases args)
  case (Without_description fn opts)
  show ?thesis
    using assms
    unfolding Without_description args_options.simps args_path.simps args_fn.simps
    by (simp add: record_call_def measure_call_verify_false Let_def)
next
  case (With_description d fn opts)
  show ?thesis
    using assms
    unfolding With_description args_options.simps args_path.simps args_fn.simps
    by (cases d) (simp_all add: record_call_def measure_call_verify_false Let_def)
qed

theorem record_emits_once_witness:
  "record_call example_env []
     (With_description (Arr [''a'', ''b'']) tick
        (Some (no_options\<lparr>iterations_opt := Some 2, meanUnder_opt := Some (1 / 2)\<rparr>)))
     (logging_Benchmark, (0, []))
   = (Inl (PerformanceError ''Mean time of # ms exceeded threshold of # ms''),
      logging_Benchmark\<lparr>data := [(''a'', Node [] [(''b'', Node [1, 1] [])])]\<rparr>,
      (2000000, [([''a'', ''b''], [1, 1], [(''a'', Node [] [(''b'', Node [1, 1] [])])])]))"
  using record_emits_once [of
      "With_description (Arr [''a'', ''b'']) tick
         (Some (no_options\<lparr>iterations_opt := Some 2, meanUnder_opt := Some (1 / 2)\<rparr>))"
      example_env "[]" "(0, [])" "Measurement 1 [1]" "(2000000, [])" logging_Benchmark
      "logging_Benchmark\<lparr>data := [(''a'', Node [] [(''b'', Node [1, 1] [])])]\<rparr>"]
  by (simp add: run_simps js_simps mean_def double_simps
      build_calls.simps await_call.simps run_tasks.simps)

text \<open>
  Claim C3 at a segment that \<open>Object.prototype\<close> has: \<open>"toString" in data\<close> holds although
  the tree has no such node, so none is created, and appending to the durations of
  \<open>data["toString"]\<close> throws a \<open>TypeError\<close>. \<open>record\<close> with that description fails the same way,
  after the iterations have run and before the event is emitted.
\<close>

theorem incorporate_inherited_name:
  "incorporate new_Benchmark [''toString''] (Measurement 1 [])
     = (Inl TypeError, new_Benchmark)
   \<and> record_call example_env []
        (With_description (Str ''toString'') tick (Some (no_options\<lparr>iterations_opt := Some 1\<rparr>)))
        (logging_Benchmark, (0, []))
     = (Inl TypeError, logging_Benchmark, (1000000, []))"
  by (simp add: run_simps js_simps new_Benchmark_def
      build_calls.simps await_call.simps run_tasks.simps)

text \<open>
  For paths without such a segment the merge is what the specification says: it succeeds,
  the durations are appended to those of the node at the path, and the durations at every
  other path, the prefixes and the extensions of the path among them, stay as they are.
\<close>

lemma has_property_own:
  "c \<notin> set Object_prototype_keys \<Longrightarrow> has_property c tree = (map_of tree c \<noteq> None)"
  by (simp add: has_property_def)

lemma durations_at_Nil: "durations_at [] q = []"
  by (cases q) simp_all

lemma addBenchmarkDurations_durations_at:
  assumes "path \<noteq> []" and "set path \<inter> set Object_prototype_keys = {}"
  shows "fst (addBenchmarkDurations tree path ds) = Inr ()
       \<and> durations_at (snd (addBenchmarkDurations tree path ds)) q
           = (if q = path then durations_at tree path @ ds else durations_at tree q)"
  using assms
proof (induction path arbitrary: tree q)
  case Nil
  then show ?case by simp
next
  case (Cons c cs)
  from Cons.prems have own: "has_property c tree = (map_of tree c \<noteq> None)"
    by (simp add: has_property_own)
  define tree1 where "tree1 = (if \<not> has_property c tree then AList.update c (Node [] []) tree else tree)"
  define info where "info = (case map_of tree c of None \<Rightarrow> Node [] [] | Some n \<Rightarrow> n)"
  have m1: "map_of tree1 = (map_of tree)(c \<mapsto> info)"
    by (auto simp: tree1_def info_def own update_conv' fun_eq_iff split: option.splits)
  have at_c: "durations_at tree (c # qs)
                = (if qs = [] then node_durations info else durations_at (children info) qs)" for qs
    by (auto simp: info_def durations_at_Nil split: option.splits)
  show ?case
  proof (cases "cs = []")
    case True
    have res: "addBenchmarkDurations tree (c # cs) ds
                 = (Inr (), AList.update c (Node (node_durations info @ ds) (children info)) tree1)"
      using True m1 by (simp add: tree1_def [symmetric] Let_def)
    show ?thesis
    proof (cases q)
      case Nil
      then show ?thesis unfolding res by simp
    next
      case (Cons c' qs)
      then show ?thesis
        using True at_c [of qs] at_c [of "[]"]
        unfolding res by (auto simp: update_conv' m1)
    qed
  next
    case False
    from Cons.prems have "set cs \<inter> set Object_prototype_keys = {}" by auto
    note IH = Cons.IH [OF False this, of "children info"]
    obtain r ch' where rec: "addBenchmarkDurations (children info) cs ds = (r, ch')"
      by (cases "addBenchmarkDurations (children info) cs ds")
    from IH [of "[]"] rec have r: "r = Inr ()" by simp
    have ch': "durations_at ch' qs
                 = (if qs = cs then durations_at (children info) cs @ ds
                    else durations_at (children info) qs)" for qs
      using IH [of qs] rec by simp
    have res: "addBenchmarkDurations tree (c # cs) ds
                 = (Inr (), AList.update c (Node (node_durations info) ch') tree1)"
      using False m1 rec r by (simp add: tree1_def [symmetric] Let_def)
    show ?thesis
    proof (cases q)
      case Nil
      then show ?thesis unfolding res by simp
    next
      case (Cons c' qs)
      then show ?thesis
        using False at_c [of qs] at_c [of cs] ch' [of qs]
        unfolding res by (auto simp: update_conv' m1)
    qed
  qed
qed

text \<open>
  So a path and its prefix coexist, in either order of recording: after durations \<open>d1\<close>
  under \<open>["A", "B"]\<close> and \<open>d2\<close> under \<open>["A"]\<close>, the node \<open>A\<close> has \<open>d2\<close> after what it had and the
  node \<open>B\<close> below it has \<open>d1\<close> after what it had.
\<close>

lemma prefix_coexists:
  fixes tree :: BenchmarkData and d1 d2 :: "real list"
  defines "ab \<equiv> snd (addBenchmarkDurations tree [''A'', ''B''] d1)"
    and "a \<equiv> snd (addBenchmarkDurations tree [''A''] d2)"
  shows "durations_at (snd (addBenchmarkDurations ab [''A''] d2)) [''A'']
           = durations_at tree [''A''] @ d2"
    and "durations_at (snd (addBenchmarkDurations ab [''A''] d2)) [''A'', ''B'']
           = durations_at tree [''A'', ''B''] @ d1"
    and "durations_at (snd (addBenchmarkDurations a [''A'', ''B''] d1)) [''A'']
           = durations_at tree [''A''] @ d2"
    and "durations_at (snd (addBenchmarkDurations a [''A'', ''B''] d1)) [''A'', ''B'']
           = durations_at tree [''A'', ''B''] @ d1"
proof -
  have ok: "[''A'', ''B''] \<noteq> []" "set [''A'', ''B''] \<inter> set Object_prototype_keys = {}"
    "[''A''] \<noteq> []" "set [''A''] \<inter> set Object_prototype_keys = {}"
    by (simp_all add: Object_prototype_keys_def)
  note AB = addBenchmarkDurations_durations_at [OF ok(1,2), THEN conjunct2]
  note A = addBenchmarkDurations_durations_at [OF ok(3,4), THEN conjunct2]
  show "durations_at (snd (addBenchmarkDurations ab [''A''] d2)) [''A'']
          = durations_at tree [''A''] @ d2"
    unfolding ab_def A AB by simp
  show "durations_at (snd (addBenchmarkDurations ab [''A''] d2)) [''A'', ''B'']
          = durations_at tree [''A'', ''B''] @ d1"
    unfolding ab_def A AB by simp
  show "durations_at (snd (addBenchmarkDurations a [''A'', ''B''] d1)) [''A'']
          = durations_at tree [''A''] @ d2"
    unfolding a_def A AB by simp
  show "durations_at (snd (addBenchmarkDurations a [''A'', ''B''] d1)) [''A'', ''B'']
          = durations_at tree [''A'', ''B''] @ d1"
    unfolding a_def A AB by simp
qed

section \<open>Properties of the report\<close>

text \<open>
  The report in the words of the specification. \<open>spec_lines\<close> goes through a tree depth
  first, a node before its children, in the order in which the list holds the nodes, which
  is the order of insertion. For each node it gives the line of the key, indented by two
  spaces for each level; when the node has durations, the line of its mean, margin of error
  (both rounded to 5 places) and number of durations, one level deeper; an empty line when
  the node has durations and children; then the lines of the children.
\<close>

definition spec_sub_line :: "'w env \<Rightarrow> real list \<Rightarrow> nat \<Rightarrow> string" where
  "spec_sub_line env ds depth =
     repeat ''  '' (depth + 1)
       @ number_toString env (mathjs_round (mathjs_mean ds) 5) @ '' ms (+/- ''
       @ number_toString env
           (mathjs_round
              (times_double (round_double 1.96)
                 (sqrt_double (divide_double (mathjs_variance ds) (real (length ds))))) 5)
       @ '' ms) from '' @ number_toString env (real (length ds)) @ '' iterations''"

fun spec_lines :: "'w env \<Rightarrow> BenchmarkData \<Rightarrow> nat \<Rightarrow> string list" where
  "spec_lines env [] depth = []"
| "spec_lines env ((key, Node ds ch) # rest) depth =
     [repeat ''  '' depth @ key @ '':'']
       @ (if ds \<noteq> [] then [spec_sub_line env ds depth] else [])
       @ (if ds \<noteq> [] \<and> ch \<noteq> [] then [''''] else [])
       @ spec_lines env ch (depth + 1)
       @ spec_lines env rest depth"

definition spec_report :: "'w env \<Rightarrow> BenchmarkData \<Rightarrow> string" where
  "spec_report env tree =
     (if tree = [] then ''''
      else join newline ([HEADER env] @ spec_lines env tree 0 @ [FOOTER env]))"

text \<open>
  The tree with every level put in the order in which \<open>Object.entries\<close> enumerates it.
\<close>

fun reorder :: "node \<Rightarrow> node" where
  "reorder (Node ds ch) = Node ds (Object_entries (map (\<lambda>p. (fst p, reorder (snd p))) ch))"

definition enumeration_order :: "BenchmarkData \<Rightarrow> BenchmarkData" where
  "enumeration_order level = Object_entries (map (\<lambda>p. (fst p, reorder (snd p))) level)"

text \<open>
  A tree none of whose keys, at any level, is an array index.
\<close>

fun no_index_keys :: "BenchmarkData \<Rightarrow> bool" where
  "no_index_keys [] = True"
| "no_index_keys ((key, Node ds ch) # rest) =
     (\<not> is_array_index key \<and> no_index_keys ch \<and> no_index_keys rest)"

lemmas entries_simps = Object_entries_def is_array_index_def is_digit_def index_value_def

lemma insort_key_map_value:
  assumes "\<And>y. k (g y) = k' y"
  shows "insort_key k (g x) (map g xs) = map g (insort_key k' x xs)"
  by (induction xs) (simp_all add: assms)

lemma sort_key_map_value:
  assumes "\<And>y. k (g y) = k' y"
  shows "sort_key k (map g xs) = map g (sort_key k' xs)"
  by (induction xs) (simp_all add: insort_key_map_value [of k g k'] assms)

lemma Object_entries_map:
  "Object_entries (map (\<lambda>p. (fst p, g (snd p))) obj)
     = map (\<lambda>p. (fst p, g (snd p))) (Object_entries obj)"
  unfolding Object_entries_def
  by (simp add: filter_map o_def
      sort_key_map_value [where k' = "\<lambda>p. index_value (fst p)"])

lemma length_Object_entries: "length (Object_entries obj) = length obj"
  using mset_Object_entries [of obj] by (metis size_mset)

lemma Object_entries_Nil: "(Object_entries obj = []) = (obj = [])"
  using length_Object_entries [of obj] by (metis length_0_conv)

lemma Object_keys_Nil: "(Object_keys obj = []) = (obj = [])"
  by (simp add: Object_keys_def Object_entries_Nil)

lemma enumeration_order_Nil: "(enumeration_order level = []) = (level = [])"
  by (simp add: enumeration_order_def Object_entries_Nil)

lemma enumeration_order_empty: "enumeration_order [] = []"
  by (simp add: enumeration_order_Nil)

lemma marginOfError_commute:
  "marginOfError m
     = times_double (round_double 1.96)
         (sqrt_double (divide_double (mathjs_variance (durations m))
            (real (length (durations m)))))"
  by (simp add: marginOfError_def times_double_def mult.commute)

lemma report_entries_spec:
  "report_entries env entries depth lines
     = Inr (lines @ spec_lines env (map (\<lambda>p. (fst p, reorder (snd p))) entries) depth)"
proof (induction "level_weight entries" arbitrary: entries depth lines rule: less_induct)
  case less
  show ?case
  proof (cases entries)
    case Nil
    then show ?thesis by simp
  next
    case (Cons e rest)
    obtain description ds ch where e: "e = (description, Node ds ch)"
      by (cases e; cases "snd e") auto
    have w: "level_weight (Object_entries ch) < level_weight entries"
      "level_weight rest < level_weight entries"
      by (simp_all add: Cons e level_weight_Cons level_weight_Object_entries)
    have sub: "reportLevel env ch (Suc depth)
                 = Inr (spec_lines env (enumeration_order ch) (Suc depth))"
      using less [OF w(1), of "Suc depth" "[]"]
      by (simp add: enumeration_order_def Object_entries_map)
    have rest: "report_entries env rest depth ls
                  = Inr (ls @ spec_lines env (map (\<lambda>p. (fst p, reorder (snd p))) rest) depth)"
      for ls
      using less [OF w(2)] by simp
    show ?thesis
    proof (cases ds)
      case Nil
      then show ?thesis
        unfolding Cons e
        by (simp add: sub rest Object_keys_Nil enumeration_order_Nil enumeration_order_empty
            Let_def enumeration_order_def [symmetric] del: reportLevel.simps)
    next
      case (Cons d ds')
      then show ?thesis
        unfolding \<open>entries = e # rest\<close> e
        by (simp add: sub rest Object_keys_Nil enumeration_order_Nil enumeration_order_empty
            Let_def enumeration_order_def [symmetric] spec_sub_line_def round_places_def mean_def
            marginOfError_commute
            del: reportLevel.simps mathjs_mean.simps mathjs_variance.simps)
    qed
  qed
qed

lemma reportLevel_spec:
  "reportLevel env level depth = Inr (spec_lines env (enumeration_order level) depth)"
  by (simp add: report_entries_spec enumeration_order_def Object_entries_map)

lemma spec_lines_Nil: "(spec_lines env tree depth = []) = (tree = [])"
  by (cases tree; cases "snd (hd tree)") auto

lemma report_spec:
  "report env b = (Inr (spec_report env (enumeration_order (data b))), b)"
  by (simp add: report_def reportLevel_spec spec_report_def spec_lines_Nil
      del: reportLevel.simps)

lemma recorded_2_then_1_data:
  "recorded_2_then_1 = \<lparr>data = [(''2'', Node [1] []), (''1'', Node [1] [])], events = []\<rparr>"
  by (simp add: recorded_2_then_1_def run_simps js_simps new_Benchmark_def double_simps
      build_calls.simps await_call.simps run_tasks.simps)

text \<open>
  Claim C4, as stated, fails: after a recording under \<open>"2"\<close> and then one under \<open>"1"\<close>, the
  report is not the traversal in insertion order (it has \<open>1:\<close> before \<open>2:\<close>).
\<close>

theorem report_not_in_insertion_order:
  "fst (report example_env recorded_2_then_1)
     \<noteq> Inr (spec_report example_env (data recorded_2_then_1))"
  unfolding recorded_2_then_1_data
  by (simp add: report_def spec_report_def entries_simps Object_keys_def example_env_def
      repeat_def newline_def Let_def spec_sub_line_def)

text \<open>
  Claim C4, amended. \<open>report\<close> never fails and leaves the store as it is. On an empty tree
  it is the empty string. Otherwise it is the header, the lines of the traversal and the
  footer, joined by newlines, where the traversal is that of the specification except for
  its order: at each level the keys that are array indices come first, in ascending numeric
  order, and the other keys follow in the order of insertion.
\<close>

theorem report_enumeration_order:
  "report env b = (Inr (spec_report env (enumeration_order (data b))), b)"
  by (rule report_spec)

theorem report_enumeration_order_witness:
  "report example_env recorded_2_then_1
     = (Inr (''- Performance -\<newline>1:\<newline>  # ms (+/- # ms) from # iterations''
              @ ''\<newline>2:\<newline>  # ms (+/- # ms) from # iterations\<newline>- - -''),
        recorded_2_then_1)"
  using report_enumeration_order [of example_env recorded_2_then_1]
  unfolding recorded_2_then_1_data
  by (simp add: spec_report_def enumeration_order_def entries_simps example_env_def
      repeat_def newline_def spec_sub_line_def)

text \<open>
  When no key is an array index the two orders are the same, and the report is the
  traversal in insertion order.
\<close>

lemma Object_entries_no_index:
  "\<forall>p \<in> set obj. \<not> is_array_index (fst p) \<Longrightarrow> Object_entries obj = obj"
  by (simp add: Object_entries_def filter_empty_conv)

lemma no_index_keys_keys: "no_index_keys tree \<Longrightarrow> \<forall>p \<in> set tree. \<not> is_array_index (fst p)"
  by (induction tree rule: no_index_keys.induct) auto

lemma no_index_keys_reorder:
  "no_index_keys tree \<Longrightarrow> map (\<lambda>p. (fst p, reorder (snd p))) tree = tree"
proof (induction tree rule: no_index_keys.induct)
  case 1
  then show ?case by simp
next
  case (2 key ds ch rest)
  then have "map (\<lambda>p. (fst p, reorder (snd p))) ch = ch" by simp
  moreover have "Object_entries ch = ch"
  proof (rule Object_entries_no_index)
    from 2(3) have "no_index_keys ch" by simp
    then show "\<forall>p \<in> set ch. \<not> is_array_index (fst p)" by (rule no_index_keys_keys)
  qed
  ultimately show ?case using 2 by simp
qed

lemma no_index_keys_enumeration_order:
  "no_index_keys tree \<Longrightarrow> enumeration_order tree = tree"
  by (simp add: enumeration_order_def no_index_keys_reorder Object_entries_no_index
      no_index_keys_keys)

lemma report_insertion_order:
  "no_index_keys (data b) \<Longrightarrow> report env b = (Inr (spec_report env (data b)), b)"
  by (simp only: report_spec no_index_keys_enumeration_order)

text \<open>
  Claim C9. \<open>report\<close> leaves the store as it was, and a second call on the store it leaves
  gives the same text.
\<close>

theorem report_idempotent:
  "snd (report env b) = b
   \<and> fst (report env (snd (report env b))) = fst (report env b)"
  by (simp add: report_def split: sum.splits)

end
